theory Spec2Isabelle
  imports Complex_Main "HOL-Library.Word"
begin

section \<open>Data model\<close>

text \<open>
  The program computes on numpy \<open>float64\<close> arrays. Arrays are modelled as lists and
  floating-point numbers as real numbers: every arithmetic operation of the source
  is the exact operation on \<open>real\<close>, so rounding is not part of this model.
  Exceptions are values of \<open>py_error\<close>; a computation that may raise returns
  \<open>py_error + 'a\<close> with \<open>Inl\<close> for the exception.
\<close>

datatype py_error = ValueError | ZeroDivisionError

type_synonym point = "real \<times> real \<times> real"

type_synonym byte = "8 word"

text \<open>\<^verbatim>\<open>VERTICAL_ANGLES_16\<close> of \<^verbatim>\<open>lidar_utils.py\<close>, in degrees.\<close>

definition VERTICAL_ANGLES_16 :: "real list" where
  "VERTICAL_ANGLES_16 =
     [-15, -13, -11, -9, -7, -5, -3, -1, 1, 3, 5, 7, 9, 11, 13, 15]"

section \<open>numpy operations used by the source\<close>

text \<open>\<^verbatim>\<open>np.deg2rad\<close>, elementwise \<open>x * pi / 180\<close>.\<close>

definition deg2rad :: "real \<Rightarrow> real" where
  "deg2rad d = d * (pi / 180)"

text \<open>
  \<^verbatim>\<open>a * b\<close> on one-dimensional arrays, with numpy's broadcasting: equal lengths
  multiply pointwise, an array of length one is stretched to the other's length, and
  any other pair of lengths raises \<^verbatim>\<open>ValueError\<close>.
\<close>

definition np_mul :: "real list \<Rightarrow> real list \<Rightarrow> py_error + real list" where
  "np_mul xs ys =
     (if length xs = length ys then Inr (map2 (*) xs ys)
      else if length xs = 1 then Inr (map (\<lambda>y. hd xs * y) ys)
      else if length ys = 1 then Inr (map (\<lambda>x. x * hd ys) xs)
      else Inl ValueError)"

text \<open>
  \<^verbatim>\<open>np.meshgrid(xs, ys)\<close> with the default \<^verbatim>\<open>indexing='xy'\<close>: two arrays of shape
  \<open>(|ys|, |xs|)\<close>, the first repeating \<open>xs\<close> in every row, the second constant
  \<open>ys ! i\<close> along row \<open>i\<close>. \<^verbatim>\<open>flatten\<close> is row-major.
\<close>

definition meshgrid :: "real list \<Rightarrow> real list \<Rightarrow> real list list \<times> real list list" where
  "meshgrid xs ys = (map (\<lambda>y. xs) ys, map (\<lambda>y. map (\<lambda>x. y) xs) ys)"

definition flatten :: "real list list \<Rightarrow> real list" where
  "flatten rows = concat rows"

text \<open>
  \<^verbatim>\<open>np.column_stack([xs, ys, zs])\<close> on one-dimensional arrays: the rows
  \<open>(xs ! k, ys ! k, zs ! k)\<close>; arrays of different lengths raise \<^verbatim>\<open>ValueError\<close>.
\<close>

definition column_stack :: "real list \<Rightarrow> real list \<Rightarrow> real list \<Rightarrow> py_error + point list" where
  "column_stack xs ys zs =
     (if length xs = length ys \<and> length ys = length zs
      then Inr (zip xs (zip ys zs)) else Inl ValueError)"

text \<open>
  \<^verbatim>\<open>np.frombuffer(buf, dtype=">u2")\<close>: consecutive byte pairs as big-endian unsigned
  16-bit integers; a buffer of odd length raises \<^verbatim>\<open>ValueError\<close>.
\<close>

fun frombuffer_be_u2 :: "byte list \<Rightarrow> py_error + nat list" where
  "frombuffer_be_u2 [] = Inr []"
| "frombuffer_be_u2 [b] = Inl ValueError"
| "frombuffer_be_u2 (hi # lo # bs) =
     (case frombuffer_be_u2 bs of
        Inl e \<Rightarrow> Inl e
      | Inr vs \<Rightarrow> Inr ((unat hi * 256 + unat lo) # vs))"

text \<open>\<^verbatim>\<open>np.linalg.norm(points, axis=1)\<close> for one row.\<close>

definition norm3 :: "point \<Rightarrow> real" where
  "norm3 p = (case p of (x, y, z) \<Rightarrow> sqrt (x\<^sup>2 + y\<^sup>2 + z\<^sup>2))"

text \<open>
  \<^verbatim>\<open>np.linspace(start, stop, num, endpoint=True)\<close>: a negative \<open>num\<close> raises
  \<^verbatim>\<open>ValueError\<close>, \<open>num = 0\<close> gives the empty array, \<open>num = 1\<close> gives \<open>[start]\<close>, and
  otherwise the values are \<open>start + k * ((stop - start) / (num - 1))\<close>.
\<close>

definition linspace :: "real \<Rightarrow> real \<Rightarrow> int \<Rightarrow> py_error + real list" where
  "linspace start stop num =
     (if num < 0 then Inl ValueError
      else if num = 1 then Inr [start]
      else Inr (map (\<lambda>k. start + real k * ((stop - start) / real (nat num - 1)))
                    [0 ..< nat num]))"

text \<open>Python's \<^verbatim>\<open>int(x)\<close> on a float truncates towards zero.\<close>

definition py_int :: "real \<Rightarrow> int" where
  "py_int x = (if 0 \<le> x then \<lfloor>x\<rfloor> else \<lceil>x\<rceil>)"

section \<open>lidar\_utils.py\<close>

text \<open>
  \<^verbatim>\<open>sph2cart\<close>: the grid of elevations and azimuths is flattened row by row and
  multiplied with the distances.
\<close>

definition sph2cart ::
  "real list \<Rightarrow> real list \<Rightarrow> real list \<Rightarrow> py_error + (real list \<times> real list \<times> real list)" where
  "sph2cart azimuths elevations distances =
     (case meshgrid elevations azimuths of (els, azs) \<Rightarrow>
      (case np_mul distances (map cos (flatten els)) of
         Inl e \<Rightarrow> Inl e
       | Inr dc \<Rightarrow>
      (case np_mul dc (map cos (flatten azs)) of
         Inl e \<Rightarrow> Inl e
       | Inr x_coords \<Rightarrow>
      (case np_mul dc (map sin (flatten azs)) of
         Inl e \<Rightarrow> Inl e
       | Inr y_coords \<Rightarrow>
      (case np_mul distances (map sin (flatten els)) of
         Inl e \<Rightarrow> Inl e
       | Inr z_coords \<Rightarrow> Inr (x_coords, y_coords, z_coords))))))"

text \<open>\<^verbatim>\<open>get_number_of_points\<close>: true division, so the result is a float.\<close>

definition get_number_of_points :: "byte list \<Rightarrow> real" where
  "get_number_of_points distances = real (length distances) / 2"

text \<open>
  \<^verbatim>\<open>get_number_of_azimuths\<close>: true division of a float by the integer field of the
  message; a zero divisor raises \<^verbatim>\<open>ZeroDivisionError\<close>.
\<close>

definition get_number_of_azimuths :: "real \<Rightarrow> nat \<Rightarrow> py_error + real" where
  "get_number_of_azimuths number_of_points entries_per_azimuth =
     (if entries_per_azimuth = 0 then Inl ZeroDivisionError
      else Inr (number_of_points / real entries_per_azimuth))"

text \<open>
  Lines 91 to 93 of \<^verbatim>\<open>get_points\<close>: the call of \<^verbatim>\<open>sph2cart\<close> and the stacking of
  \<open>x\<close>, \<open>-y\<close> and \<open>z\<close> into rows, before any filtering.
\<close>

definition candidate_points :: "real list \<Rightarrow> real list \<Rightarrow> real list \<Rightarrow> py_error + point list" where
  "candidate_points azimuths elevations distances =
     (case sph2cart azimuths elevations distances of
        Inl e \<Rightarrow> Inl e
      | Inr (x_coords, y_coords, z_coords) \<Rightarrow>
          column_stack x_coords (map uminus y_coords) z_coords)"

text \<open>The condition of lines 96 and 97 for one row.\<close>

definition usable :: "point \<Rightarrow> bool" where
  "usable p = (norm3 p \<ge> 0.5 \<and> norm3 p \<le> 200)"

text \<open>Lines 85 to 89: the buffer as big-endian 16-bit values, as floats, divided by 100.\<close>

definition decode_distances :: "byte list \<Rightarrow> py_error + real list" where
  "decode_distances binary_distances =
     (case frombuffer_be_u2 binary_distances of
        Inl e \<Rightarrow> Inl e
      | Inr vs \<Rightarrow> Inr (map (\<lambda>v. real v / 100) vs))"

definition get_points :: "real list \<Rightarrow> real list \<Rightarrow> byte list \<Rightarrow> py_error + point list" where
  "get_points azimuths elevations binary_distances =
     (case decode_distances binary_distances of
        Inl e \<Rightarrow> Inl e
      | Inr distances \<Rightarrow>
     (case candidate_points azimuths elevations distances of
        Inl e \<Rightarrow> Inl e
      | Inr points \<Rightarrow> Inr (filter usable points)))"

section \<open>main.py: the revolution decoder\<close>

text \<open>
  The fields of an \<^verbatim>\<open>opendlv_proxy_PointCloudReading\<close> message that the decoder reads
  (lines 71 to 74). Parsing the envelope is outside this model: the decoder is given
  the parsed messages. \<^verbatim>\<open>entriesPerAzimuth\<close> is an unsigned field of the message.
\<close>

record PointCloudReading =
  startAzimuth :: real
  endAzimuth :: real
  entriesPerAzimuth :: nat
  distances :: "byte list"

text \<open>
  The loop of lines 68 to 87 with its two accumulators. A message without distance
  bytes is skipped; otherwise the number of azimuths is the float quotient cut to an
  integer by \<^verbatim>\<open>int\<close>, which raises nothing for a quotient with a fractional part.
\<close>

fun accumulate_envelopes ::
  "PointCloudReading list \<Rightarrow> real list \<Rightarrow> byte list \<Rightarrow> py_error + (real list \<times> byte list)" where
  "accumulate_envelopes [] all_azimuths all_binary_distances =
     Inr (all_azimuths, all_binary_distances)"
| "accumulate_envelopes (msg # rest) all_azimuths all_binary_distances =
     (if distances msg = [] then accumulate_envelopes rest all_azimuths all_binary_distances
      else
       (case get_number_of_azimuths (get_number_of_points (distances msg))
               (entriesPerAzimuth msg) of
          Inl exc \<Rightarrow> Inl exc
        | Inr n_azimuths \<Rightarrow>
       (case linspace (startAzimuth msg) (endAzimuth msg) (py_int n_azimuths) of
          Inl exc \<Rightarrow> Inl exc
        | Inr azimuths \<Rightarrow>
            accumulate_envelopes rest (all_azimuths @ azimuths)
              (all_binary_distances @ distances msg))))"

text \<open>The body of the \<^verbatim>\<open>try\<close> block, lines 68 to 98.\<close>

definition extractor_body :: "PointCloudReading list \<Rightarrow> py_error + point list option" where
  "extractor_body envelopes =
     (case accumulate_envelopes envelopes [] [] of
        Inl exc \<Rightarrow> Inl exc
      | Inr (all_azimuths, all_binary_distances) \<Rightarrow>
     (case get_points (map deg2rad all_azimuths) (map deg2rad VERTICAL_ANGLES_16)
             all_binary_distances of
        Inl exc \<Rightarrow> Inl exc
      | Inr points \<Rightarrow> Inr (if points = [] then None else Some points)))"

text \<open>
  \<^verbatim>\<open>point_cloud_reading_extractor\<close>: the body under \<^verbatim>\<open>except Exception\<close>, which
  prints the exception and returns \<^verbatim>\<open>None\<close>. The result keeps the sum type, so that
  an exception leaving the function would be the value \<open>Inl\<close>.
\<close>

definition point_cloud_reading_extractor ::
  "PointCloudReading list \<Rightarrow> py_error + point list option" where
  "point_cloud_reading_extractor envelopes =
     (case extractor_body envelopes of
        Inl exc \<Rightarrow> Inr None
      | Inr result \<Rightarrow> Inr result)"

text \<open>
  The stages \<^verbatim>\<open>.map(point_cloud_reading_extractor).filter(lambda x: x is not None)\<close>
  of \<^verbatim>\<open>pcd_extractor\<close> (lines 106 and 107) run over the revolutions that
  \<^verbatim>\<open>partition\<close> hands on, one after the other: the result is the sequence of values
  passed downstream, or the exception that left the map stage.
\<close>

fun pcd_decoded :: "PointCloudReading list list \<Rightarrow> py_error + point list list" where
  "pcd_decoded [] = Inr []"
| "pcd_decoded (revolution # rest) =
     (case point_cloud_reading_extractor revolution of
        Inl exc \<Rightarrow> Inl exc
      | Inr x \<Rightarrow>
     (case pcd_decoded rest of
        Inl exc \<Rightarrow> Inl exc
      | Inr out \<Rightarrow> Inr (case x of None \<Rightarrow> out | Some points \<Rightarrow> points # out)))"

section \<open>main.py: the frame transformer\<close>

text \<open>
  \<^verbatim>\<open>Rotation.from_euler("zyx", [a, b, c], degrees=True).apply(points)\<close> of scipy.
  Lower-case axes are extrinsic rotations: each point is turned about the fixed
  \<open>z\<close> axis by \<open>a\<close>, then about the fixed \<open>y\<close> axis by \<open>b\<close>, then about the
  fixed \<open>x\<close> axis by \<open>c\<close>, right-handed, angles in degrees.
\<close>

definition rot_z :: "real \<Rightarrow> point \<Rightarrow> point" where
  "rot_z t p = (case p of (x, y, z) \<Rightarrow> (x * cos t - y * sin t, x * sin t + y * cos t, z))"

definition rot_y :: "real \<Rightarrow> point \<Rightarrow> point" where
  "rot_y t p = (case p of (x, y, z) \<Rightarrow> (x * cos t + z * sin t, y, z * cos t - x * sin t))"

definition rot_x :: "real \<Rightarrow> point \<Rightarrow> point" where
  "rot_x t p = (case p of (x, y, z) \<Rightarrow> (x, y * cos t - z * sin t, y * sin t + z * cos t))"

definition from_euler_zyx :: "real \<Rightarrow> real \<Rightarrow> real \<Rightarrow> point \<Rightarrow> point" where
  "from_euler_zyx a b c p = rot_x (deg2rad c) (rot_y (deg2rad b) (rot_z (deg2rad a) p))"

text \<open>
  \<^verbatim>\<open>transform_coords\<close>; the three \<^verbatim>\<open>CLUON_SENSOR_ORIENTATION\<close> settings, integers read
  from the environment, are parameters.
\<close>

definition transform_coords ::
  "int \<Rightarrow> int \<Rightarrow> int \<Rightarrow> (real \<times> real) \<times> real \<times> point list \<Rightarrow> (real \<times> real) \<times> point list" where
  "transform_coords orientation_x orientation_y orientation_z data =
     (case data of (pos, hdg, points) \<Rightarrow>
        (pos, map (from_euler_zyx (hdg + real_of_int orientation_z)
                     (real_of_int orientation_y) (real_of_int orientation_x)) points))"

section \<open>The latest-value join\<close>

text \<open>
  Modelled from the spec: \<^verbatim>\<open>combine_latest(pos_extractor, hdg_extractor, pcd_extractor,
  emit_on=pcd_extractor)\<close> of lines 154 to 159 is a function of the streamz library,
  which is not among the repository's sources. The join is the sample cache of
  section 4.3 of the specification: the state holds the last heading and the last
  position, \<open>update_heading\<close> and \<open>update_position\<close> overwrite the cached value and
  emit nothing, and \<open>on_point_cloud\<close> emits \<open>(last_position, last_heading, pc)\<close> if
  both cached values are present and nothing otherwise.
\<close>

record sample_cache =
  last_heading :: "real option"
  last_position :: "(real \<times> real) option"

type_synonym fused_frame = "(real \<times> real) \<times> real \<times> point list"

datatype event = Position "real \<times> real" | Heading real | PointCloud "point list"

definition empty_cache :: sample_cache where
  "empty_cache = \<lparr>last_heading = None, last_position = None\<rparr>"

definition update_heading :: "real \<Rightarrow> sample_cache \<Rightarrow> sample_cache" where
  "update_heading h c = c\<lparr>last_heading := Some h\<rparr>"

definition update_position :: "real \<times> real \<Rightarrow> sample_cache \<Rightarrow> sample_cache" where
  "update_position p c = c\<lparr>last_position := Some p\<rparr>"

definition on_point_cloud :: "point list \<Rightarrow> sample_cache \<Rightarrow> fused_frame option" where
  "on_point_cloud pc c =
     (case last_position c of
        None \<Rightarrow> None
      | Some p \<Rightarrow> (case last_heading c of None \<Rightarrow> None | Some h \<Rightarrow> Some (p, h, pc)))"

text \<open>
  The join run over a sequence of arrivals: one entry per event, the frame emitted
  at that event or \<open>None\<close>.
\<close>

fun combined :: "sample_cache \<Rightarrow> event list \<Rightarrow> fused_frame option list" where
  "combined c [] = []"
| "combined c (Heading h # es) = None # combined (update_heading h c) es"
| "combined c (Position p # es) = None # combined (update_position p c) es"
| "combined c (PointCloud pc # es) = on_point_cloud pc c # combined c es"

section \<open>The example scenario\<close>

text \<open>
  A revolution of one message: both azimuths 0, 16 entries per azimuth, and 16
  big-endian 16-bit samples of value 1000 (the bytes 3 and 232).
\<close>

definition example_slice :: PointCloudReading where
  "example_slice =
     \<lparr>startAzimuth = 0, endAzimuth = 0, entriesPerAzimuth = 16,
      distances = concat (replicate 16 [3, 232])\<rparr>"

text \<open>
  The point cloud of the example: for each elevation of \<open>VERTICAL_ANGLES_16\<close> the
  point of range 10 at azimuth 0.
\<close>

definition example_cloud :: "point list" where
  "example_cloud =
     map (\<lambda>el. (10 * cos (deg2rad el), 0, 10 * sin (deg2rad el))) VERTICAL_ANGLES_16"

text \<open>
  The same samples with 9 entries per azimuth: 16 samples over 9 entries is not a
  whole number of azimuths.
\<close>

definition truncated_slice :: PointCloudReading where
  "truncated_slice =
     \<lparr>startAzimuth = 0, endAzimuth = 0, entriesPerAzimuth = 9,
      distances = concat (replicate 16 [3, 232])\<rparr>"

text \<open>
  Two messages with buffers of odd length, 3 and 29 bytes, whose concatenation is
  the 32 bytes of the example.
\<close>

definition odd_slice_a :: PointCloudReading where
  "odd_slice_a =
     \<lparr>startAzimuth = 0, endAzimuth = 0, entriesPerAzimuth = 1, distances = [3, 232, 3]\<rparr>"

definition odd_slice_b :: PointCloudReading where
  "odd_slice_b =
     \<lparr>startAzimuth = 0, endAzimuth = 0, entriesPerAzimuth = 16,
      distances = 232 # concat (replicate 14 [3, 232])\<rparr>"

text \<open>A message with a buffer of 3 bytes and 16 entries per azimuth.\<close>

definition short_slice :: PointCloudReading where
  "short_slice =
     \<lparr>startAzimuth = 0, endAzimuth = 0, entriesPerAzimuth = 16, distances = [3, 232, 3]\<rparr>"

section \<open>Properties of the geometry kernel\<close>

lemma nth_concat_uniform:
  "\<lbrakk>list_all (\<lambda>r. length r = n) rows; i < length rows; j < n\<rbrakk>
   \<Longrightarrow> concat rows ! (i * n + j) = rows ! i ! j"
proof (induction rows arbitrary: i)
  case Nil
  then show ?case by simp
next
  case (Cons r rows)
  show ?case
  proof (cases i)
    case 0
    with Cons.prems show ?thesis by (simp add: nth_append)
  next
    case (Suc k)
    with Cons.prems have "concat rows ! (k * n + j) = rows ! k ! j"
      using Cons.IH [of k] by simp
    moreover have "Suc k * n + j = length r + (k * n + j)"
      using Cons.prems by simp
    ultimately show ?thesis using Suc by (simp add: nth_append)
  qed
qed

lemma length_concat_uniform:
  "list_all (\<lambda>r. length r = n) rows \<Longrightarrow> length (concat rows) = length rows * n"
  by (induction rows) simp_all

lemma length_flatten_els:
  "length (flatten (fst (meshgrid elevations azimuths))) = length azimuths * length elevations"
  using length_concat_uniform [of "length elevations" "map (\<lambda>y. elevations) azimuths"]
  by (simp add: flatten_def meshgrid_def list_all_iff)

lemma length_flatten_azs:
  "length (flatten (snd (meshgrid elevations azimuths))) = length azimuths * length elevations"
  using length_concat_uniform
    [of "length elevations" "map (\<lambda>y. map (\<lambda>x. y) elevations) azimuths"]
  by (simp add: flatten_def meshgrid_def list_all_iff)

lemma nth_flatten_els:
  "\<lbrakk>i < length azimuths; j < length elevations\<rbrakk>
   \<Longrightarrow> flatten (fst (meshgrid elevations azimuths)) ! (i * length elevations + j) = elevations ! j"
  using nth_concat_uniform [of "length elevations" "map (\<lambda>y. elevations) azimuths" i j]
  by (simp add: flatten_def meshgrid_def list_all_iff)

lemma nth_flatten_azs:
  "\<lbrakk>i < length azimuths; j < length elevations\<rbrakk>
   \<Longrightarrow> flatten (snd (meshgrid elevations azimuths)) ! (i * length elevations + j) = azimuths ! i"
  using nth_concat_uniform [of "length elevations" "map (\<lambda>y. map (\<lambda>x. y) elevations) azimuths" i j]
  by (simp add: flatten_def meshgrid_def list_all_iff)

lemma np_mul_same: "length xs = length ys \<Longrightarrow> np_mul xs ys = Inr (map2 (*) xs ys)"
  by (simp add: np_mul_def)

lemma candidate_points_matching:
  assumes "length ds = length azimuths * length elevations"
  shows "candidate_points azimuths elevations ds =
     Inr (map (\<lambda>(d, el, az). (d * cos el * cos az, - (d * cos el * sin az), d * sin el))
            (zip ds (zip (flatten (fst (meshgrid elevations azimuths)))
                                (flatten (snd (meshgrid elevations azimuths))))))"
proof -
  obtain els azs where m: "meshgrid elevations azimuths = (els, azs)"
    by (cases "meshgrid elevations azimuths")
  have le: "length (flatten els) = length ds"
    using assms length_flatten_els [of elevations azimuths] by (simp add: m)
  have la: "length (flatten azs) = length ds"
    using assms length_flatten_azs [of elevations azimuths] by (simp add: m)
  have "candidate_points azimuths elevations ds =
     column_stack (map2 (*) (map2 (*) ds (map cos (flatten els))) (map cos (flatten azs)))
       (map uminus (map2 (*) (map2 (*) ds (map cos (flatten els))) (map sin (flatten azs))))
       (map2 (*) ds (map sin (flatten els)))"
    using le la by (simp add: candidate_points_def sph2cart_def m np_mul_same)
  also have "\<dots> = Inr (map (\<lambda>(d, el, az). (d * cos el * cos az, - (d * cos el * sin az), d * sin el))
            (zip ds (zip (flatten els) (flatten azs))))"
    using le la by (simp add: column_stack_def list_eq_iff_nth_eq)
  finally show ?thesis by (simp add: m)
qed

lemma sum_squares_spherical:
  "(d * cos el * cos az)\<^sup>2 + (- (d * cos el * sin az))\<^sup>2 + (d * sin el)\<^sup>2 = (d::real)\<^sup>2"
proof -
  have "(d * cos el * cos az)\<^sup>2 + (- (d * cos el * sin az))\<^sup>2 + (d * sin el)\<^sup>2
      = d\<^sup>2 * (cos el)\<^sup>2 * ((cos az)\<^sup>2 + (sin az)\<^sup>2) + d\<^sup>2 * (sin el)\<^sup>2"
    by (simp only: power_mult_distrib power2_minus distrib_left)
  also have "\<dots> = d\<^sup>2 * (cos el)\<^sup>2 + d\<^sup>2 * (sin el)\<^sup>2"
    by simp
  also have "\<dots> = d\<^sup>2 * ((cos el)\<^sup>2 + (sin el)\<^sup>2)"
    by (simp only: distrib_left)
  also have "\<dots> = d\<^sup>2" by simp
  finally show ?thesis .
qed

lemma norm3_spherical:
  "norm3 (d * cos el * cos az, - (d * cos el * sin az), d * sin el) = \<bar>d\<bar>"
  unfolding norm3_def by (simp only: prod.case sum_squares_spherical real_sqrt_abs)

section \<open>Claims on the geometry kernel\<close>

text \<open>
  C1. For azimuths, elevations and ranges with \<open>|ranges| = |azimuths| * |elevations|\<close>,
  the conversion succeeds and, for azimuth index \<open>i\<close> and elevation index \<open>j\<close>, the
  point at flattened index \<open>i * |elevations| + j\<close> (elevation varying fastest) is
  \<open>x = d * cos el * cos az\<close>, \<open>y = - d * cos el * sin az\<close>, \<open>z = d * sin el\<close> with
  \<open>d\<close> the range at the same flattened index.
\<close>

theorem sph2cart_cross_product:
  assumes "length ranges = length azimuths * length elevations"
    and "i < length azimuths" and "j < length elevations"
  shows "\<exists>pts. candidate_points azimuths elevations ranges = Inr pts \<and>
           length pts = length azimuths * length elevations \<and>
           pts ! (i * length elevations + j) =
             (ranges ! (i * length elevations + j) * cos (elevations ! j) * cos (azimuths ! i),
              - (ranges ! (i * length elevations + j) * cos (elevations ! j) * sin (azimuths ! i)),
              ranges ! (i * length elevations + j) * sin (elevations ! j))"
proof -
  let ?k = "i * length elevations + j"
  let ?els = "flatten (fst (meshgrid elevations azimuths))"
  let ?azs = "flatten (snd (meshgrid elevations azimuths))"
  have "?k < (i + 1) * length elevations" using assms(3) by simp
  also have "\<dots> \<le> length azimuths * length elevations"
    using assms(2) by (intro mult_le_mono1) simp
  finally have k: "?k < length azimuths * length elevations" .
  have lens: "length ?els = length ranges" "length ?azs = length ranges"
    using assms(1) by (simp_all add: length_flatten_els length_flatten_azs)
  show ?thesis
    using k lens assms
    by (simp add: candidate_points_matching nth_flatten_els nth_flatten_azs)
qed

theorem sph2cart_cross_product_witness:
  "length [1, 2 :: real] = length [0, pi] * length [0 :: real] \<and>
   (1::nat) < length [0, pi] \<and> (0::nat) < length [0 :: real] \<and>
   (\<exists>pts. candidate_points [0, pi] [0] [1, 2] = Inr pts \<and> length pts = 2 \<and>
       pts ! 1 = (- 2, 0, 0))"
  using sph2cart_cross_product [of "[1, 2]" "[0, pi]" "[0]" 1 0] by (simp add: eval_nat_numeral)

section \<open>Properties of the range filter\<close>

lemma usable_spherical:
  "usable (d * cos el * cos az, - (d * cos el * sin az), d * sin el) \<longleftrightarrow> 0.5 \<le> \<bar>d\<bar> \<and> \<bar>d\<bar> \<le> 200"
  by (simp only: usable_def norm3_spherical)

lemma decode_distances_nonneg:
  "decode_distances bs = Inr ds \<Longrightarrow> list_all (\<lambda>d. 0 \<le> d) ds"
  by (auto simp add: decode_distances_def list_all_iff split: sum.splits)

lemma get_points_decoded:
  "decode_distances bs = Inr ds \<Longrightarrow>
   get_points azimuths elevations bs =
     (case candidate_points azimuths elevations ds of
        Inl e \<Rightarrow> Inl e | Inr points \<Rightarrow> Inr (filter usable points))"
  by (simp add: get_points_def)

lemma deg2rad_0: "deg2rad 0 = 0"
  by (simp add: deg2rad_def)

lemma get_points_matching:
  assumes "decode_distances bs = Inr ds"
    and "length ds = length azimuths * length elevations"
  shows "get_points azimuths elevations bs =
     Inr (map (\<lambda>(d, el, az). (d * cos el * cos az, - (d * cos el * sin az), d * sin el))
            (filter (\<lambda>(d, el, az). 0.5 \<le> d \<and> d \<le> 200)
               (zip ds (zip (flatten (fst (meshgrid elevations azimuths)))
                            (flatten (snd (meshgrid elevations azimuths)))))))"
proof -
  let ?f = "\<lambda>(d, el, az). (d * cos el * cos az, - (d * cos el * sin az), d * sin el)"
  let ?zs = "zip ds (zip (flatten (fst (meshgrid elevations azimuths)))
                         (flatten (snd (meshgrid elevations azimuths))))"
  have nn: "0 \<le> d" if "d \<in> set ds" for d
    using decode_distances_nonneg [OF assms(1)] that by (simp add: list_all_iff)
  have "get_points azimuths elevations bs = Inr (filter usable (map ?f ?zs))"
    using assms by (simp add: get_points_decoded candidate_points_matching)
  also have "filter usable (map ?f ?zs) = map ?f (filter (usable \<circ> ?f) ?zs)"
    by (simp add: filter_map)
  also have "filter (usable \<circ> ?f) ?zs = filter (\<lambda>(d, el, az). 0.5 \<le> d \<and> d \<le> 200) ?zs"
  proof (rule filter_cong [OF refl])
    fix t assume "t \<in> set ?zs"
    then have "fst t \<in> set ds"
      using set_zip_leftD [of "fst t" "snd t" ds] by simp
    then have "0 \<le> fst t" by (rule nn)
    then show "(usable \<circ> ?f) t = (case t of (d, el, az) \<Rightarrow> 0.5 \<le> d \<and> d \<le> 200)"
      by (cases t) (simp add: usable_spherical)
  qed
  finally show ?thesis .
qed

lemma from_euler_zyx_0: "from_euler_zyx 0 0 0 p = p"
  by (cases p) (simp add: from_euler_zyx_def rot_x_def rot_y_def rot_z_def deg2rad_0)

lemma map_from_euler_zyx_0: "map (from_euler_zyx 0 0 0) points = points"
  by (induction points) (simp_all add: from_euler_zyx_0)

lemma get_points_usable: "get_points azimuths elevations bs = Inr pts \<Longrightarrow> list_all usable pts"
  by (auto simp add: get_points_def list_all_iff split: sum.splits)

lemma extractor_Some_get_points:
  assumes "point_cloud_reading_extractor envelopes = Inr (Some pc)"
  shows "\<exists>azs bs. get_points (map deg2rad azs) (map deg2rad VERTICAL_ANGLES_16) bs = Inr pc \<and> pc \<noteq> []"
  using assms
  by (auto simp add: point_cloud_reading_extractor_def extractor_body_def
      split: sum.splits prod.splits if_splits)

lemma norm3_example: "norm3 (10 * cos el, 0, 10 * sin el) = 10"
  using norm3_spherical [of 10 el 0] by simp

section \<open>Properties of the revolution decoder\<close>

lemma frombuffer_be_u2_odd:
  "odd (length bs) \<Longrightarrow> frombuffer_be_u2 bs = Inl ValueError"
  by (induction bs rule: frombuffer_be_u2.induct) simp_all

lemma frombuffer_be_u2_even:
  "even (length bs) \<Longrightarrow> \<exists>vs. frombuffer_be_u2 bs = Inr vs \<and> length vs = length bs div 2"
  by (induction bs rule: frombuffer_be_u2.induct) auto

lemma decode_distances_odd:
  "odd (length bs) \<Longrightarrow> decode_distances bs = Inl ValueError"
  by (simp add: decode_distances_def frombuffer_be_u2_odd)

lemma decode_distances_even:
  "even (length bs) \<Longrightarrow> \<exists>ds. decode_distances bs = Inr ds \<and> length ds = length bs div 2"
  using frombuffer_be_u2_even [of bs] by (auto simp add: decode_distances_def)

lemma candidate_points_mismatch:
  assumes "length ds \<noteq> length azimuths * length elevations"
    and "length ds \<noteq> 1" and "length azimuths * length elevations \<noteq> 1"
  shows "candidate_points azimuths elevations ds = Inl ValueError"
proof -
  obtain els azs where m: "meshgrid elevations azimuths = (els, azs)"
    by (cases "meshgrid elevations azimuths")
  have "length (flatten els) = length azimuths * length elevations"
    using length_flatten_els [of elevations azimuths] by (simp add: m)
  then have "np_mul ds (map cos (flatten els)) = Inl ValueError"
    using assms by (simp add: np_mul_def)
  then show ?thesis
    by (simp add: candidate_points_def sph2cart_def m)
qed

lemma candidate_points_empty_grid:
  assumes "length azimuths * length elevations = 0"
  shows "candidate_points azimuths elevations [d] = Inr []"
proof -
  obtain els azs where m: "meshgrid elevations azimuths = (els, azs)"
    by (cases "meshgrid elevations azimuths")
  have "length (flatten els) = 0"
    using length_flatten_els [of elevations azimuths] by (simp only: m fst_conv assms)
  then have e1: "flatten els = []" by simp
  have "length (flatten azs) = 0"
    using length_flatten_azs [of elevations azimuths] by (simp only: m snd_conv assms)
  then have e2: "flatten azs = []" by simp
  show ?thesis
    by (simp add: candidate_points_def sph2cart_def m e1 e2 np_mul_def column_stack_def)
qed

lemma length_linspace:
  "0 \<le> num \<Longrightarrow> \<exists>azs. linspace start stop num = Inr azs \<and> length azs = nat num"
  by (simp add: linspace_def)

lemma py_int_azimuths:
  assumes "e \<noteq> 0"
  shows "py_int (get_number_of_points bs / real e) = int (length bs div (2 * e))"
proof -
  have "get_number_of_points bs / real e = real (length bs) / real (2 * e)"
    by (simp add: get_number_of_points_def)
  moreover have "\<lfloor>real (length bs) / real (2 * e)\<rfloor> = int (length bs div (2 * e))"
    by (rule floor_divide_of_nat_eq)
  moreover have "0 \<le> get_number_of_points bs / real e"
    by (simp add: get_number_of_points_def)
  ultimately show ?thesis by (simp add: py_int_def)
qed

lemma accumulate_envelopes_ok:
  assumes "\<forall>m \<in> set envelopes. distances m \<noteq> [] \<longrightarrow> entriesPerAzimuth m \<noteq> 0"
  shows "\<exists>azs. accumulate_envelopes envelopes azs0 bs0 =
                 Inr (azs, bs0 @ concat (map distances envelopes)) \<and>
               length azs = length azs0 +
                 (\<Sum>m\<leftarrow>envelopes. length (distances m) div (2 * entriesPerAzimuth m))"
  using assms
proof (induction envelopes arbitrary: azs0 bs0)
  case Nil
  then show ?case by simp
next
  case (Cons msg rest)
  show ?case
  proof (cases "distances msg = []")
    case True
    with Cons.IH [of azs0 bs0] Cons.prems show ?thesis by simp
  next
    case False
    with Cons.prems have e: "entriesPerAzimuth msg \<noteq> 0" by simp
    let ?n = "length (distances msg) div (2 * entriesPerAzimuth msg)"
    obtain new where new: "linspace (startAzimuth msg) (endAzimuth msg) (int ?n) = Inr new"
      and len: "length new = ?n"
      using length_linspace [of "int ?n" "startAzimuth msg" "endAzimuth msg"] by auto
    from Cons.prems have "\<forall>m \<in> set rest. distances m \<noteq> [] \<longrightarrow> entriesPerAzimuth m \<noteq> 0"
      by simp
    from Cons.IH [OF this, of "azs0 @ new" "bs0 @ distances msg"] False e new len
    show ?thesis
      by (auto simp add: get_number_of_azimuths_def py_int_azimuths)
  qed
qed

lemma accumulate_envelopes_zero:
  assumes "\<exists>m \<in> set envelopes. distances m \<noteq> [] \<and> entriesPerAzimuth m = 0"
  shows "accumulate_envelopes envelopes azs0 bs0 = Inl ZeroDivisionError"
  using assms
proof (induction envelopes arbitrary: azs0 bs0)
  case Nil
  then show ?case by simp
next
  case (Cons msg rest)
  show ?case
  proof (cases "distances msg \<noteq> [] \<and> entriesPerAzimuth msg = 0")
    case True
    then show ?thesis by (simp add: get_number_of_azimuths_def)
  next
    case False
    with Cons.prems have r: "\<exists>m \<in> set rest. distances m \<noteq> [] \<and> entriesPerAzimuth m = 0"
      by auto
    show ?thesis
    proof (cases "distances msg = []")
      case True
      with Cons.IH [OF r] show ?thesis by simp
    next
      case nonempty: False
      with False have e: "entriesPerAzimuth msg \<noteq> 0" by simp
      let ?n = "length (distances msg) div (2 * entriesPerAzimuth msg)"
      obtain new where new: "linspace (startAzimuth msg) (endAzimuth msg) (int ?n) = Inr new"
        using length_linspace [of "int ?n" "startAzimuth msg" "endAzimuth msg"] by auto
      with Cons.IH [OF r, of "azs0 @ new" "bs0 @ distances msg"] nonempty e
      show ?thesis by (simp add: get_number_of_azimuths_def py_int_azimuths)
    qed
  qed
qed

lemma length_VERTICAL_ANGLES_16: "length VERTICAL_ANGLES_16 = 16"
  by (simp add: VERTICAL_ANGLES_16_def)

lemma extractor_never_raises:
  "\<exists>r. point_cloud_reading_extractor envelopes = Inr r"
  by (simp add: point_cloud_reading_extractor_def split: sum.splits)

lemma extractor_body_Inl:
  "extractor_body envelopes = Inl exc \<Longrightarrow> point_cloud_reading_extractor envelopes = Inr None"
  by (simp add: point_cloud_reading_extractor_def)

lemma extractor_zero_division:
  assumes "\<exists>m \<in> set envelopes. distances m \<noteq> [] \<and> entriesPerAzimuth m = 0"
  shows "point_cloud_reading_extractor envelopes = Inr None"
proof -
  have "extractor_body envelopes = Inl ZeroDivisionError"
    by (simp add: extractor_body_def accumulate_envelopes_zero [OF assms])
  then show ?thesis by (rule extractor_body_Inl)
qed

lemma extractor_body_accumulated:
  assumes "accumulate_envelopes envelopes [] [] = Inr (azs, bs)"
  shows "extractor_body envelopes =
     (case get_points (map deg2rad azs) (map deg2rad VERTICAL_ANGLES_16) bs of
        Inl exc \<Rightarrow> Inl exc
      | Inr points \<Rightarrow> Inr (if points = [] then None else Some points))"
  by (simp add: extractor_body_def assms)

lemma accumulate_envelopes_start:
  assumes "\<not> (\<exists>m \<in> set envelopes. distances m \<noteq> [] \<and> entriesPerAzimuth m = 0)"
  shows "\<exists>azs. accumulate_envelopes envelopes [] [] =
      Inr (azs, concat (map distances envelopes)) \<and>
      length azs = (\<Sum>m\<leftarrow>envelopes. length (distances m) div (2 * entriesPerAzimuth m))"
proof -
  from assms
  have "\<forall>m \<in> set envelopes. distances m \<noteq> [] \<longrightarrow> entriesPerAzimuth m \<noteq> 0"
    by auto
  from accumulate_envelopes_ok [OF this, of "[]" "[]"] show ?thesis by simp
qed

lemma get_points_odd:
  "odd (length bs) \<Longrightarrow> get_points azimuths elevations bs = Inl ValueError"
  by (simp add: get_points_def decode_distances_odd)

lemma extractor_odd_length:
  assumes "odd (length (concat (map distances envelopes)))"
  shows "point_cloud_reading_extractor envelopes = Inr None"
proof (cases "\<exists>m \<in> set envelopes. distances m \<noteq> [] \<and> entriesPerAzimuth m = 0")
  case True
  then show ?thesis by (rule extractor_zero_division)
next
  case False
  from accumulate_envelopes_start [OF this]
  obtain azs where acc: "accumulate_envelopes envelopes [] [] =
      Inr (azs, concat (map distances envelopes))" by blast
  have "extractor_body envelopes = Inl ValueError"
    unfolding extractor_body_accumulated [OF acc] get_points_odd [OF assms] by simp
  then show ?thesis by (rule extractor_body_Inl)
qed

lemma extractor_count_mismatch:
  assumes "length (concat (map distances envelopes)) div 2 \<noteq>
             16 * (\<Sum>m\<leftarrow>envelopes. length (distances m) div (2 * entriesPerAzimuth m))"
    and "length (concat (map distances envelopes)) div 2 \<noteq> 1"
  shows "point_cloud_reading_extractor envelopes = Inr None"
proof (cases "\<exists>m \<in> set envelopes. distances m \<noteq> [] \<and> entriesPerAzimuth m = 0")
  case True
  then show ?thesis by (rule extractor_zero_division)
next
  case False
  from accumulate_envelopes_start [OF this]
  obtain azs where acc: "accumulate_envelopes envelopes [] [] =
      Inr (azs, concat (map distances envelopes))"
    and len: "length azs = (\<Sum>m\<leftarrow>envelopes. length (distances m) div (2 * entriesPerAzimuth m))"
    by blast
  show ?thesis
  proof (cases "odd (length (concat (map distances envelopes)))")
    case True
    then show ?thesis by (rule extractor_odd_length)
  next
    case even: False
    from decode_distances_even [of "concat (map distances envelopes)"] even
    obtain ds where ds: "decode_distances (concat (map distances envelopes)) = Inr ds"
      and lds: "length ds = length (concat (map distances envelopes)) div 2" by blast
    have "candidate_points (map deg2rad azs) (map deg2rad VERTICAL_ANGLES_16) ds = Inl ValueError"
    proof (rule candidate_points_mismatch)
      show "length ds \<noteq> length (map deg2rad azs) * length (map deg2rad VERTICAL_ANGLES_16)"
        using assms(1) unfolding lds len length_map length_VERTICAL_ANGLES_16
        by (simp add: mult.commute)
      show "length ds \<noteq> 1" unfolding lds by (rule assms(2))
      show "length (map deg2rad azs) * length (map deg2rad VERTICAL_ANGLES_16) \<noteq> 1"
        by (simp add: length_VERTICAL_ANGLES_16)
    qed
    then have "get_points (map deg2rad azs) (map deg2rad VERTICAL_ANGLES_16)
          (concat (map distances envelopes)) = Inl ValueError"
      by (simp add: get_points_def ds)
    then have "extractor_body envelopes = Inl ValueError"
      unfolding extractor_body_accumulated [OF acc] by simp
    then show ?thesis by (rule extractor_body_Inl)
  qed
qed

lemma extractor_single_sample_no_azimuth:
  assumes "length (concat (map distances envelopes)) = 2"
    and "(\<Sum>m\<leftarrow>envelopes. length (distances m) div (2 * entriesPerAzimuth m)) = 0"
  shows "point_cloud_reading_extractor envelopes = Inr None"
proof (cases "\<exists>m \<in> set envelopes. distances m \<noteq> [] \<and> entriesPerAzimuth m = 0")
  case True
  then show ?thesis by (rule extractor_zero_division)
next
  case False
  from accumulate_envelopes_start [OF this]
  obtain azs where acc: "accumulate_envelopes envelopes [] [] =
      Inr (azs, concat (map distances envelopes))"
    and len: "length azs = (\<Sum>m\<leftarrow>envelopes. length (distances m) div (2 * entriesPerAzimuth m))"
    by blast
  from len have azs: "azs = []" by (simp only: assms(2) length_0_conv)
  have "even (length (concat (map distances envelopes)))" unfolding assms(1) by simp
  from decode_distances_even [OF this]
  obtain ds where ds: "decode_distances (concat (map distances envelopes)) = Inr ds"
    and lds: "length ds = length (concat (map distances envelopes)) div 2" by blast
  from lds have "length ds = 1" unfolding assms(1) by simp
  then obtain d where d: "ds = [d]" by (cases ds) auto
  have "candidate_points (map deg2rad []) (map deg2rad VERTICAL_ANGLES_16) [d] = Inr []"
    by (rule candidate_points_empty_grid) simp
  then have "get_points (map deg2rad azs) (map deg2rad VERTICAL_ANGLES_16)
          (concat (map distances envelopes)) = Inr []"
    by (simp add: get_points_def ds d azs)
  then have "extractor_body envelopes = Inr None"
    unfolding extractor_body_accumulated [OF acc] by simp
  then show ?thesis by (simp add: point_cloud_reading_extractor_def)
qed

lemma non_integral_mod_32:
  assumes "get_number_of_points bs / real 16 \<notin> \<int>"
  shows "length bs mod 32 \<noteq> 0"
proof
  assume "length bs mod 32 = 0"
  then obtain q where q: "length bs = 32 * q" by (auto simp add: mod_eq_0_iff_dvd)
  have "get_number_of_points bs / real 16 = of_nat q"
    by (simp add: get_number_of_points_def q)
  with assms show False by (metis Ints_of_nat)
qed

lemma mult_div_32_less:
  assumes "0 < (n::nat) mod 32"
  shows "32 * (n div 32) < n"
proof -
  have "32 * (n div 32) + n mod 32 = n" by (rule mult_div_mod_eq)
  with assms show ?thesis by linarith
qed

lemma half_differs:
  assumes "32 * (a::nat) < l" and "even l"
  shows "l div 2 \<noteq> 16 * a" and "l div 2 = 1 \<Longrightarrow> l = 2 \<and> a = 0"
  using assms by (auto elim!: evenE)

lemma azimuths_times_32_le:
  assumes "\<forall>m \<in> set envelopes. distances m \<noteq> [] \<longrightarrow> entriesPerAzimuth m = 16"
  shows "32 * (\<Sum>m\<leftarrow>envelopes. length (distances m) div (2 * entriesPerAzimuth m))
           \<le> length (concat (map distances envelopes))"
  using assms
proof (induction envelopes)
  case Nil
  then show ?case by simp
next
  case (Cons msg rest)
  have "32 * (length (distances msg) div (2 * entriesPerAzimuth msg)) \<le> length (distances msg)"
    using Cons.prems by (cases "distances msg = []") simp_all
  with Cons show ?case by simp
qed

lemma azimuths_times_32_less:
  assumes "\<forall>m \<in> set envelopes. distances m \<noteq> [] \<longrightarrow> entriesPerAzimuth m = 16"
    and "msg \<in> set envelopes" and "length (distances msg) mod 32 \<noteq> 0"
  shows "32 * (\<Sum>m\<leftarrow>envelopes. length (distances m) div (2 * entriesPerAzimuth m))
           < length (concat (map distances envelopes))"
  using assms
proof (induction envelopes)
  case Nil
  then show ?case by simp
next
  case (Cons m rest)
  have le: "32 * (length (distances m) div (2 * entriesPerAzimuth m)) \<le> length (distances m)"
    using Cons.prems(1) by (cases "distances m = []") simp_all
  from Cons.prems(1) have all: "\<forall>m \<in> set rest. distances m \<noteq> [] \<longrightarrow> entriesPerAzimuth m = 16"
    by simp
  show ?case
  proof (cases "msg = m")
    case True
    with Cons.prems(3) have ne: "distances m \<noteq> []" by auto
    with Cons.prems(1) have "entriesPerAzimuth m = 16" by simp
    with True Cons.prems(3)
    have "32 * (length (distances m) div (2 * entriesPerAzimuth m)) < length (distances m)"
      by (simp add: mult_div_32_less)
    with azimuths_times_32_le [OF all] show ?thesis by simp
  next
    case False
    with Cons.prems(2) have "msg \<in> set rest" by simp
    from Cons.IH [OF all this Cons.prems(3)] le show ?thesis by simp
  qed
qed

lemma pcd_decoded_each:
  "pcd_decoded revolutions =
     Inr (concat (map (\<lambda>revolution.
            case point_cloud_reading_extractor revolution of
              Inr (Some points) \<Rightarrow> [points] | _ \<Rightarrow> []) revolutions))"
proof (induction revolutions)
  case Nil
  then show ?case by simp
next
  case (Cons revolution rest)
  obtain r where "point_cloud_reading_extractor revolution = Inr r"
    using extractor_never_raises by blast
  with Cons show ?case by (cases r) simp_all
qed

section \<open>The decoder on the example messages\<close>

lemma example_bytes:
  "concat (replicate 16 [3, 232 :: byte]) =
     [3, 232, 3, 232, 3, 232, 3, 232, 3, 232, 3, 232, 3, 232, 3, 232,
      3, 232, 3, 232, 3, 232, 3, 232, 3, 232, 3, 232, 3, 232, 3, 232]"
  by (simp add: numeral_eq_Suc)

lemma example_decode:
  "decode_distances (concat (replicate 16 [3, 232])) = Inr (replicate 16 10)"
proof -
  have r: "replicate 16 (10::real) =
     [10, 10, 10, 10, 10, 10, 10, 10, 10, 10, 10, 10, 10, 10, 10, 10]"
    by (simp add: numeral_eq_Suc)
  show ?thesis
    unfolding example_bytes r by (simp add: decode_distances_def)
qed

lemma example_get_points:
  "get_points (map deg2rad [0]) (map deg2rad VERTICAL_ANGLES_16) (concat (replicate 16 [3, 232])) =
     Inr (map (\<lambda>el. (10 * cos (deg2rad el), 0, 10 * sin (deg2rad el))) VERTICAL_ANGLES_16)"
proof -
  have l: "length (replicate 16 (10::real)) =
      length (map deg2rad [0]) * length (map deg2rad VERTICAL_ANGLES_16)"
    by (simp add: VERTICAL_ANGLES_16_def)
  show ?thesis
    unfolding get_points_matching [OF example_decode l]
    by (simp add: meshgrid_def flatten_def VERTICAL_ANGLES_16_def deg2rad_0 eval_nat_numeral)
qed

lemma extractor_example_accumulated:
  assumes "accumulate_envelopes envelopes [] [] = Inr ([0], concat (replicate 16 [3, 232]))"
  shows "point_cloud_reading_extractor envelopes =
     Inr (Some (map (\<lambda>el. (10 * cos (deg2rad el), 0, 10 * sin (deg2rad el))) VERTICAL_ANGLES_16))"
  unfolding point_cloud_reading_extractor_def extractor_body_accumulated [OF assms]
    example_get_points
  by (simp add: VERTICAL_ANGLES_16_def)

lemma sixteen_ninths_not_int: "(16 / 9 :: real) \<notin> \<int>"
proof
  assume "(16 / 9 :: real) \<in> \<int>"
  then obtain k :: int where "(16 / 9 :: real) = of_int k" by (auto elim: Ints_cases)
  then have "(16 :: real) = of_int (9 * k)" by simp
  then have "(16 :: int) = 9 * k" by (metis of_int_eq_iff of_int_numeral)
  then show False by presburger
qed

lemma length_concat_replicate_pair: "length (concat (replicate n [a, b])) = 2 * n"
  by (induction n) simp_all

lemma accumulate_envelopes_nonempty:
  assumes "distances msg \<noteq> []" and "entriesPerAzimuth msg \<noteq> 0"
  shows "accumulate_envelopes (msg # rest) azs bs =
     (case linspace (startAzimuth msg) (endAzimuth msg)
             (int (length (distances msg) div (2 * entriesPerAzimuth msg))) of
        Inl exc \<Rightarrow> Inl exc
      | Inr azimuths \<Rightarrow> accumulate_envelopes rest (azs @ azimuths) (bs @ distances msg))"
  using assms by (simp add: get_number_of_azimuths_def py_int_azimuths)

lemma accumulate_envelopes_one_azimuth:
  assumes "distances msg \<noteq> []" and "entriesPerAzimuth msg \<noteq> 0"
    and "length (distances msg) div (2 * entriesPerAzimuth msg) = 1"
  shows "accumulate_envelopes (msg # rest) azs bs =
           accumulate_envelopes rest (azs @ [startAzimuth msg]) (bs @ distances msg)"
  unfolding accumulate_envelopes_nonempty [OF assms(1,2)] assms(3)
  by (simp add: linspace_def)

lemma accumulate_envelopes_no_azimuth:
  assumes "distances msg \<noteq> []" and "entriesPerAzimuth msg \<noteq> 0"
    and "length (distances msg) div (2 * entriesPerAzimuth msg) = 0"
  shows "accumulate_envelopes (msg # rest) azs bs =
           accumulate_envelopes rest azs (bs @ distances msg)"
  unfolding accumulate_envelopes_nonempty [OF assms(1,2)] assms(3)
  by (simp add: linspace_def)

lemma example_accumulate:
  "accumulate_envelopes [example_slice] [] [] = Inr ([0], concat (replicate 16 [3, 232]))"
proof -
  have "accumulate_envelopes [example_slice] [] [] =
      accumulate_envelopes [] ([] @ [startAzimuth example_slice])
        ([] @ distances example_slice)"
    by (rule accumulate_envelopes_one_azimuth)
      (simp_all add: example_slice_def length_concat_replicate_pair example_bytes)
  then show ?thesis by (simp add: example_slice_def)
qed

lemma example_points:
  "point_cloud_reading_extractor [example_slice] =
     Inr (Some (map (\<lambda>el. (10 * cos (deg2rad el), 0, 10 * sin (deg2rad el))) VERTICAL_ANGLES_16))"
  using example_accumulate by (rule extractor_example_accumulated)

lemma truncated_accumulate:
  "accumulate_envelopes [truncated_slice] [] [] = Inr ([0], concat (replicate 16 [3, 232]))"
proof -
  have "accumulate_envelopes [truncated_slice] [] [] =
      accumulate_envelopes [] ([] @ [startAzimuth truncated_slice])
        ([] @ distances truncated_slice)"
    by (rule accumulate_envelopes_one_azimuth)
      (simp_all add: truncated_slice_def length_concat_replicate_pair example_bytes)
  then show ?thesis by (simp add: truncated_slice_def)
qed

lemma odd_pair_accumulate:
  "accumulate_envelopes [odd_slice_a, odd_slice_b] [] [] =
     Inr ([0], concat (replicate 16 [3, 232]))"
proof -
  have "accumulate_envelopes [odd_slice_a, odd_slice_b] [] [] =
      accumulate_envelopes [odd_slice_b] ([] @ [startAzimuth odd_slice_a])
        ([] @ distances odd_slice_a)"
    by (rule accumulate_envelopes_one_azimuth) (simp_all add: odd_slice_a_def)
  also have "\<dots> = accumulate_envelopes [] ([] @ [startAzimuth odd_slice_a])
        (([] @ distances odd_slice_a) @ distances odd_slice_b)"
    by (rule accumulate_envelopes_no_azimuth)
      (simp_all add: odd_slice_b_def length_concat_replicate_pair)
  also have "\<dots> = Inr ([0], concat (replicate 16 [3, 232]))"
    by (simp add: odd_slice_a_def odd_slice_b_def numeral_eq_Suc)
  finally show ?thesis .
qed

section \<open>Claims on the range filter\<close>



text \<open>
  C5. Every point \<open>(x, y, z)\<close> of a point cloud that the decoder produces satisfies
  \<open>0.5 \<le> sqrt (x\<^sup>2 + y\<^sup>2 + z\<^sup>2) \<le> 200\<close>: a point outside the band is in no point
  cloud.
\<close>

theorem range_filter_invariant:
  assumes "point_cloud_reading_extractor envelopes = Inr (Some pc)"
    and "(x, y, z) \<in> set pc"
  shows "0.5 \<le> sqrt (x\<^sup>2 + y\<^sup>2 + z\<^sup>2) \<and> sqrt (x\<^sup>2 + y\<^sup>2 + z\<^sup>2) \<le> 200"
proof -
  from extractor_Some_get_points [OF assms(1)] have "list_all usable pc"
    by (auto dest: get_points_usable)
  with assms(2) have "usable (x, y, z)" by (simp add: list_all_iff)
  then show ?thesis by (simp add: usable_def norm3_def)
qed

theorem range_filter_invariant_witness:
  "point_cloud_reading_extractor [example_slice] =
     Inr (Some (map (\<lambda>el. (10 * cos (deg2rad el), 0, 10 * sin (deg2rad el))) VERTICAL_ANGLES_16)) \<and>
   (10 * cos (deg2rad 15), 0, 10 * sin (deg2rad 15)) \<in>
     set (map (\<lambda>el. (10 * cos (deg2rad el), 0, 10 * sin (deg2rad el))) VERTICAL_ANGLES_16) \<and>
   0.5 \<le> sqrt ((10 * cos (deg2rad 15))\<^sup>2 + 0\<^sup>2 + (10 * sin (deg2rad 15))\<^sup>2) \<and>
   sqrt ((10 * cos (deg2rad 15))\<^sup>2 + 0\<^sup>2 + (10 * sin (deg2rad 15))\<^sup>2) \<le> 200"
proof -
  have m: "(10 * cos (deg2rad 15), 0, 10 * sin (deg2rad 15)) \<in>
     set (map (\<lambda>el. (10 * cos (deg2rad el), 0, 10 * sin (deg2rad el))) VERTICAL_ANGLES_16)"
    by (simp add: VERTICAL_ANGLES_16_def)
  from range_filter_invariant [OF example_points m] example_points m
  show ?thesis by blast
qed

section \<open>Claims on malformed revolutions\<close>

text \<open>
  C2, as amended. In a revolution whose messages with distance bytes all have 16
  entries per azimuth, the number of elevations, a message with distance bytes whose
  quotient of points by entries per azimuth is not a whole number makes the decoder
  return no point cloud.
\<close>

theorem non_integral_azimuth_count:
  assumes "msg \<in> set envelopes" and "distances msg \<noteq> []"
    and "get_number_of_points (distances msg) / real (entriesPerAzimuth msg) \<notin> \<int>"
    and "\<forall>m \<in> set envelopes. distances m \<noteq> [] \<longrightarrow> entriesPerAzimuth m = 16"
  shows "point_cloud_reading_extractor envelopes = Inr None"
proof -
  let ?L = "length (concat (map distances envelopes))"
  let ?A = "\<Sum>m\<leftarrow>envelopes. length (distances m) div (2 * entriesPerAzimuth m)"
  from assms have "entriesPerAzimuth msg = 16" by simp
  with assms(3) have "length (distances msg) mod 32 \<noteq> 0"
    using non_integral_mod_32 [of "distances msg"] by simp
  from azimuths_times_32_less [OF assms(4) assms(1) this] have less: "32 * ?A < ?L" .
  show ?thesis
  proof (cases "odd ?L")
    case True
    then show ?thesis by (rule extractor_odd_length)
  next
    case False
    then have ev: "even ?L" by simp
    show ?thesis
    proof (cases "?L div 2 = 1")
      case True
      from half_differs(2) [OF less ev True] show ?thesis
        by (intro extractor_single_sample_no_azimuth) simp_all
    next
      case False
      from half_differs(1) [OF less ev] False show ?thesis
        by (rule extractor_count_mismatch)
    qed
  qed
qed

theorem non_integral_azimuth_count_witness:
  "short_slice \<in> set [short_slice, example_slice] \<and> distances short_slice \<noteq> [] \<and>
   get_number_of_points (distances short_slice) / real (entriesPerAzimuth short_slice) \<notin> \<int> \<and>
   point_cloud_reading_extractor [short_slice, example_slice] = Inr None"
proof -
  have q: "get_number_of_points (distances short_slice) /
      real (entriesPerAzimuth short_slice) = 3 / 32"
    by (simp add: short_slice_def get_number_of_points_def)
  have "(3 / 32 :: real) \<notin> \<int>"
  proof
    assume "(3 / 32 :: real) \<in> \<int>"
    then obtain k :: int where "(3 / 32 :: real) = of_int k" by (auto elim: Ints_cases)
    then have "(3 :: real) = of_int (32 * k)" by simp
    then have "(3 :: int) = 32 * k" by (metis of_int_eq_iff of_int_numeral)
    then show False by presburger
  qed
  then have 3: "get_number_of_points (distances short_slice) /
      real (entriesPerAzimuth short_slice) \<notin> \<int>"
    unfolding q .
  have 1: "short_slice \<in> set [short_slice, example_slice]" by simp
  have 2: "distances short_slice \<noteq> []" by (simp add: short_slice_def)
  have 4: "\<forall>m \<in> set [short_slice, example_slice].
      distances m \<noteq> [] \<longrightarrow> entriesPerAzimuth m = 16"
    by (simp add: short_slice_def example_slice_def)
  from non_integral_azimuth_count [OF 1 2 3 4] 1 2 3 show ?thesis by (intro conjI)
qed

text \<open>
  The claim as stated fails for other numbers of entries per azimuth, since
  \<^verbatim>\<open>int\<close> cuts the quotient to a whole number and raises nothing: 16 samples with
  9 entries per azimuth give the quotient \<open>16 / 9\<close>, one azimuth is generated, and
  the revolution decodes to the 16 points of the example.
\<close>

theorem non_integral_truncated_counterexample:
  "distances truncated_slice \<noteq> [] \<and>
   get_number_of_points (distances truncated_slice) / real (entriesPerAzimuth truncated_slice) \<notin> \<int> \<and>
   point_cloud_reading_extractor [truncated_slice] = Inr (Some example_cloud) \<and>
   length example_cloud = 16"
proof -
  have q: "get_number_of_points (distances truncated_slice) /
          real (entriesPerAzimuth truncated_slice) = 16 / 9"
    by (simp add: truncated_slice_def get_number_of_points_def length_concat_replicate_pair)
  have 1: "distances truncated_slice \<noteq> []"
    by (simp add: truncated_slice_def example_bytes)
  have 2: "get_number_of_points (distances truncated_slice) /
          real (entriesPerAzimuth truncated_slice) \<notin> \<int>"
    unfolding q by (rule sixteen_ninths_not_int)
  have 3: "point_cloud_reading_extractor [truncated_slice] = Inr (Some example_cloud)"
    unfolding example_cloud_def
    using truncated_accumulate by (rule extractor_example_accumulated)
  have 4: "length example_cloud = 16"
    by (simp add: example_cloud_def length_VERTICAL_ANGLES_16)
  from 1 2 3 4 show ?thesis by (intro conjI)
qed

text \<open>
  C6, as amended. No exception leaves the decoder: every revolution gives a point
  cloud or nothing. A revolution gives nothing if its accumulated buffer has odd
  length, if a message with distance bytes has 0 entries per azimuth, or if the
  number of its samples is neither 1 nor 16 times the number of its accumulated
  azimuths. The sequence of decoded point clouds is made of the results of the
  single revolutions in order, so a revolution that gives nothing changes the
  result of no other revolution.
\<close>

theorem decoder_failure_containment:
  "(\<exists>r. point_cloud_reading_extractor revolution = Inr r) \<and>
   (odd (length (concat (map distances revolution))) \<longrightarrow>
      point_cloud_reading_extractor revolution = Inr None) \<and>
   ((\<exists>m \<in> set revolution. distances m \<noteq> [] \<and> entriesPerAzimuth m = 0) \<longrightarrow>
      point_cloud_reading_extractor revolution = Inr None) \<and>
   (length (concat (map distances revolution)) div 2 \<noteq>
      16 * (\<Sum>m\<leftarrow>revolution. length (distances m) div (2 * entriesPerAzimuth m)) \<and>
    length (concat (map distances revolution)) div 2 \<noteq> 1 \<longrightarrow>
      point_cloud_reading_extractor revolution = Inr None) \<and>
   pcd_decoded revolutions =
     Inr (concat (map (\<lambda>revolution.
            case point_cloud_reading_extractor revolution of
              Inr (Some points) \<Rightarrow> [points] | _ \<Rightarrow> []) revolutions))"
  using extractor_never_raises [of revolution] extractor_odd_length [of revolution]
    extractor_zero_division [of revolution] extractor_count_mismatch [of revolution]
    pcd_decoded_each [of revolutions]
  by (intro conjI impI) blast+

theorem decoder_failure_containment_witness:
  "odd (length (concat (map distances [short_slice]))) \<and>
   point_cloud_reading_extractor [short_slice] = Inr None \<and>
   distances \<lparr>startAzimuth = 0, endAzimuth = 0, entriesPerAzimuth = 0, distances = [3, 232]\<rparr> \<noteq> [] \<and>
   point_cloud_reading_extractor
     [\<lparr>startAzimuth = 0, endAzimuth = 0, entriesPerAzimuth = 0, distances = [3, 232]\<rparr>] = Inr None \<and>
   length (concat (map distances
     [\<lparr>startAzimuth = 0, endAzimuth = 90, entriesPerAzimuth = 16, distances = [3, 232, 3, 232]\<rparr>])) div 2 = 2 \<and>
   point_cloud_reading_extractor
     [\<lparr>startAzimuth = 0, endAzimuth = 90, entriesPerAzimuth = 16, distances = [3, 232, 3, 232]\<rparr>] = Inr None \<and>
   pcd_decoded [[short_slice], [example_slice]] = Inr [example_cloud]"
proof -
  let ?z = "\<lparr>startAzimuth = 0, endAzimuth = 0, entriesPerAzimuth = 0, distances = [3, 232]\<rparr>"
  let ?w = "\<lparr>startAzimuth = 0, endAzimuth = 90, entriesPerAzimuth = 16,
             distances = [3, 232, 3, 232]\<rparr>"
  have o: "odd (length (concat (map distances [short_slice])))"
    by (simp add: short_slice_def)
  from decoder_failure_containment [of "[short_slice]" "[[short_slice], [example_slice]]"] o
  have n: "point_cloud_reading_extractor [short_slice] = Inr None"
    and d: "pcd_decoded [[short_slice], [example_slice]] =
     Inr (concat (map (\<lambda>revolution.
            case point_cloud_reading_extractor revolution of
              Inr (Some points) \<Rightarrow> [points] | _ \<Rightarrow> []) [[short_slice], [example_slice]]))"
    by blast+
  from d have p: "pcd_decoded [[short_slice], [example_slice]] = Inr [example_cloud]"
    by (simp add: n example_points example_cloud_def)
  have z: "\<exists>m \<in> set [?z]. distances m \<noteq> [] \<and> entriesPerAzimuth m = 0" by simp
  from decoder_failure_containment [of "[?z]" "[]"] z
  have nz: "point_cloud_reading_extractor [?z] = Inr None" by blast
  have w: "length (concat (map distances [?w])) div 2 \<noteq>
      16 * (\<Sum>m\<leftarrow>[?w]. length (distances m) div (2 * entriesPerAzimuth m)) \<and>
    length (concat (map distances [?w])) div 2 \<noteq> 1" by simp
  from decoder_failure_containment [of "[?w]" "[]"] w
  have nw: "point_cloud_reading_extractor [?w] = Inr None" by blast
  have "distances ?z \<noteq> []" by simp
  moreover have "length (concat (map distances [?w])) div 2 = 2" by simp
  ultimately show ?thesis using o n nz nw p by (intro conjI)
qed

text \<open>
  The claim as stated fails for buffers of odd length that add up to an even
  length: the two messages are decoded to a point cloud of 16 points.
\<close>

theorem odd_slices_decoded_counterexample:
  "odd (length (distances odd_slice_a)) \<and> odd (length (distances odd_slice_b)) \<and>
   point_cloud_reading_extractor [odd_slice_a, odd_slice_b] = Inr (Some example_cloud) \<and>
   length example_cloud = 16"
proof -
  have 1: "odd (length (distances odd_slice_a))"
    by (simp add: odd_slice_a_def)
  have 2: "odd (length (distances odd_slice_b))"
    by (simp add: odd_slice_b_def length_concat_replicate_pair)
  have 3: "point_cloud_reading_extractor [odd_slice_a, odd_slice_b] = Inr (Some example_cloud)"
    unfolding example_cloud_def
    using odd_pair_accumulate by (rule extractor_example_accumulated)
  have 4: "length example_cloud = 16"
    by (simp add: example_cloud_def length_VERTICAL_ANGLES_16)
  from 1 2 3 4 show ?thesis by (intro conjI)
qed

section \<open>Claims on the frame transformer and the example scenario\<close>

text \<open>
  C9. With mount offsets \<open>(0, 0, 0)\<close> and heading \<open>0\<close> the frame transformer leaves
  every point of the point cloud as it is, and for all offsets and headings the
  position is passed through unchanged.
\<close>

theorem transform_coords_identity:
  "transform_coords 0 0 0 (pos, 0, points) = (pos, points) \<and>
   fst (transform_coords orientation_x orientation_y orientation_z (pos, hdg, points)) = pos"
  by (simp add: transform_coords_def map_from_euler_zyx_0)

text \<open>
  C8. Decoding the example revolution gives a point cloud of exactly 16 points, one
  for each elevation of \<open>VERTICAL_ANGLES_16\<close> at azimuth 0 degrees, each of norm 10 and
  each passing the range filter; with mount offsets \<open>(0, 0, 0)\<close> and heading \<open>0\<close>
  the transformed points are the points themselves.
\<close>

theorem example_scenario:
  "\<exists>pc. point_cloud_reading_extractor [example_slice] = Inr (Some pc) \<and>
      pc = map (\<lambda>el. (10 * cos (deg2rad el) * cos (deg2rad 0),
                        - (10 * cos (deg2rad el) * sin (deg2rad 0)),
                        10 * sin (deg2rad el))) VERTICAL_ANGLES_16 \<and>
      length pc = 16 \<and>
      map norm3 pc = replicate 16 10 \<and>
      list_all usable pc \<and>
      transform_coords 0 0 0 (pos, 0, pc) = (pos, pc)"
proof -
  let ?pc = "map (\<lambda>el. (10 * cos (deg2rad el), 0, 10 * sin (deg2rad el))) VERTICAL_ANGLES_16"
  have 1: "?pc = map (\<lambda>el. (10 * cos (deg2rad el) * cos (deg2rad 0),
                        - (10 * cos (deg2rad el) * sin (deg2rad 0)),
                        10 * sin (deg2rad el))) VERTICAL_ANGLES_16"
    by (simp add: deg2rad_0)
  have 2: "length ?pc = 16" by (simp add: VERTICAL_ANGLES_16_def)
  have 3: "map norm3 ?pc = replicate 16 10"
    by (simp add: VERTICAL_ANGLES_16_def norm3_example numeral_eq_Suc)
  have 4: "list_all usable ?pc"
    by (simp add: list_all_iff usable_def norm3_example)
  have 5: "transform_coords 0 0 0 (pos, 0, ?pc) = (pos, ?pc)"
    by (simp add: transform_coords_def map_from_euler_zyx_0)
  from example_points 1 2 3 4 5 show ?thesis by blast
qed

section \<open>Properties of the latest-value join\<close>

lemma length_combined: "length (combined c es) = length es"
  by (induction c es rule: combined.induct) simp_all

lemma on_point_cloud_None:
  "on_point_cloud pc c = None \<longleftrightarrow> last_heading c = None \<or> last_position c = None"
  by (auto simp add: on_point_cloud_def split: option.splits)

lemma on_point_cloud_Some:
  "on_point_cloud pc c = Some f \<Longrightarrow> snd (snd f) = pc"
  by (auto simp add: on_point_cloud_def split: option.splits)

lemma combined_update_only:
  "\<lbrakk>k < length es; es ! k = Heading h \<or> es ! k = Position p\<rbrakk> \<Longrightarrow> combined c es ! k = None"
proof (induction c es arbitrary: k rule: combined.induct)
  case (1 c)
  then show ?case by simp
next
  case (2 c h' es)
  then show ?case by (cases k) auto
next
  case (3 c p' es)
  then show ?case by (cases k) auto
next
  case (4 c pc es)
  then show ?case by (cases k) auto
qed

lemma combined_point_cloud:
  "\<lbrakk>k < length es; es ! k = PointCloud pc\<rbrakk> \<Longrightarrow>
   (combined c es ! k = None) =
     ((last_heading c = None \<and> (\<forall>h. Heading h \<notin> set (take k es))) \<or>
      (last_position c = None \<and> (\<forall>p. Position p \<notin> set (take k es))))"
proof (induction c es arbitrary: k rule: combined.induct)
  case (1 c)
  then show ?case by simp
next
  case (2 c h' es)
  show ?case
  proof (cases k)
    case 0
    with "2.prems" show ?thesis by simp
  next
    case (Suc n)
    have "\<not> (\<forall>h. Heading h \<notin> set (take k (Heading h' # es)))"
      using Suc by auto
    moreover have "(\<forall>p. Position p \<notin> set (take k (Heading h' # es))) =
        (\<forall>p. Position p \<notin> set (take n es))"
      using Suc by simp
    moreover have "(combined c (Heading h' # es) ! k = None) =
        (last_position c = None \<and> (\<forall>p. Position p \<notin> set (take n es)))"
      using "2.prems" "2.IH" [of n] Suc by (simp add: update_heading_def)
    ultimately show ?thesis by blast
  qed
next
  case (3 c p' es)
  show ?case
  proof (cases k)
    case 0
    with "3.prems" show ?thesis by simp
  next
    case (Suc n)
    have "Position p' \<in> set (take k (Position p' # es))"
      using Suc by simp
    then have "\<not> (\<forall>p. Position p \<notin> set (take k (Position p' # es)))"
      by blast
    moreover have "(\<forall>h. Heading h \<notin> set (take k (Position p' # es))) =
        (\<forall>h. Heading h \<notin> set (take n es))"
      using Suc by simp
    moreover have "(combined c (Position p' # es) ! k = None) =
        (last_heading c = None \<and> (\<forall>h. Heading h \<notin> set (take n es)))"
      using "3.prems" "3.IH" [of n] Suc by (simp add: update_position_def)
    ultimately show ?thesis by blast
  qed
next
  case (4 c pc' es)
  then show ?case
    by (cases k) (auto simp add: on_point_cloud_None)
qed

lemma combined_frame_cloud:
  "\<lbrakk>k < length es; es ! k = PointCloud pc; combined c es ! k = Some f\<rbrakk> \<Longrightarrow> snd (snd f) = pc"
proof (induction c es arbitrary: k rule: combined.induct)
  case (1 c)
  then show ?case by simp
next
  case (2 c h' es)
  then show ?case by (cases k) auto
next
  case (3 c p' es)
  then show ?case by (cases k) auto
next
  case (4 c pc' es)
  then show ?case by (cases k) (auto dest: on_point_cloud_Some)
qed

text \<open>
  C4. For every sequence of arrivals, a point cloud arriving before both a heading
  and a position have been observed emits nothing; a point cloud arriving after
  both have been observed emits a fused frame holding that point cloud; an arriving
  heading or position emits nothing.
\<close>

theorem latest_join_gating:
  assumes "k < length es"
  shows "(\<forall>pc. es ! k = PointCloud pc \<longrightarrow>
            (if (\<exists>h. Heading h \<in> set (take k es)) \<and> (\<exists>p. Position p \<in> set (take k es))
             then \<exists>p h. combined empty_cache es ! k = Some (p, h, pc)
             else combined empty_cache es ! k = None)) \<and>
         ((\<exists>h. es ! k = Heading h) \<or> (\<exists>p. es ! k = Position p) \<longrightarrow>
            combined empty_cache es ! k = None)"
proof (intro conjI allI impI)
  fix pc assume pc: "es ! k = PointCloud pc"
  show "if (\<exists>h. Heading h \<in> set (take k es)) \<and> (\<exists>p. Position p \<in> set (take k es))
        then \<exists>p h. combined empty_cache es ! k = Some (p, h, pc)
        else combined empty_cache es ! k = None"
  proof (cases "(\<exists>h. Heading h \<in> set (take k es)) \<and> (\<exists>p. Position p \<in> set (take k es))")
    case True
    then have "combined empty_cache es ! k \<noteq> None"
      using combined_point_cloud [OF assms pc, of empty_cache] by auto
    then obtain f where f: "combined empty_cache es ! k = Some f" by auto
    from combined_frame_cloud [OF assms pc f] have "f = (fst f, fst (snd f), pc)"
      by (cases f) auto
    with f True show ?thesis by metis
  next
    case False
    then have "combined empty_cache es ! k = None"
      using combined_point_cloud [OF assms pc, of empty_cache]
      by (auto simp add: empty_cache_def)
    with False show ?thesis by simp
  qed
next
  assume "(\<exists>h. es ! k = Heading h) \<or> (\<exists>p. es ! k = Position p)"
  then show "combined empty_cache es ! k = None"
    using combined_update_only [OF assms] by blast
qed

theorem latest_join_gating_witness:
  "combined empty_cache
     [PointCloud [], Heading 90, Position (11, 57), PointCloud [(1, 2, 3)], Heading 45] ! 0 = None \<and>
   combined empty_cache
     [PointCloud [], Heading 90, Position (11, 57), PointCloud [(1, 2, 3)], Heading 45] ! 2 = None \<and>
   (\<exists>p h. combined empty_cache
     [PointCloud [], Heading 90, Position (11, 57), PointCloud [(1, 2, 3)], Heading 45] ! 3 =
       Some (p, h, [(1, 2, 3)])) \<and>
   combined empty_cache
     [PointCloud [], Heading 90, Position (11, 57), PointCloud [(1, 2, 3)], Heading 45] =
     [None, None, None, Some ((11, 57), 90, [(1, 2, 3)]), None]"
proof -
  let ?es = "[PointCloud [], Heading 90, Position (11, 57), PointCloud [(1, 2, 3)], Heading 45]"
  have 0: "combined empty_cache ?es ! 0 = None"
    using latest_join_gating [of 0 ?es] by simp
  have 2: "combined empty_cache ?es ! 2 = None"
    using latest_join_gating [of 2 ?es] by simp
  have "(\<exists>h. Heading h \<in> set (take 3 ?es)) \<and> (\<exists>p. Position p \<in> set (take 3 ?es))"
    by (simp add: numeral_3_eq_3)
  then have 3: "\<exists>p h. combined empty_cache ?es ! 3 = Some (p, h, [(1, 2, 3)])"
    using latest_join_gating [of 3 ?es] by (simp add: numeral_3_eq_3)
  have 4: "combined empty_cache ?es =
      [None, None, None, Some ((11, 57), 90, [(1, 2, 3)]), None]"
    by (simp add: empty_cache_def update_heading_def update_position_def on_point_cloud_def)
  from 0 2 3 4 show ?thesis by (intro conjI)
qed

end
